theory Spec2Isabelle
  imports Main "HOL-Library.Word"
begin

unbundle bit_operations_syntax

section \<open>Conventions of the embedding\<close>

text \<open>
  The library is a set of C++20 templates. A template type parameter that ranges over
  the unsigned fixed-width scalars (\<^verbatim>\<open>std::uint8_t\<close>, \<^verbatim>\<open>std::uint16_t\<close>,
  \<^verbatim>\<open>std::uint32_t\<close>, \<^verbatim>\<open>std::uint64_t\<close>, \<^verbatim>\<open>std::byte\<close>, and enumerations
  through their underlying type) becomes a type variable \<open>'a::len\<close> and its values are
  \<open>'a word\<close>; \<^verbatim>\<open>bits<T>\<close> is \<open>LENGTH('a)\<close>. A non-type template parameter becomes an
  ordinary argument of type \<open>nat\<close>; values of \<^verbatim>\<open>std::size_t\<close> are natural numbers below
  \<open>2 ^ 64\<close>.

  Everything that the compiler rejects (an unsatisfied \<^verbatim>\<open>requires\<close> clause, a failed
  \<^verbatim>\<open>static_assert\<close>, an initialiser of a \<^verbatim>\<open>constexpr\<close> variable that is not a constant
  expression, a member declared twice, a use of a hidden member) is a value \<open>Inl e\<close> of the sum type
  \<open>compile_error + 'a\<close>: the instantiation does not exist.

  \<^verbatim>\<open>int\<close> has 32 bits, as on every platform the library is tested on; the literal \<^verbatim>\<open>1\<close>
  in \<^verbatim>\<open>1 << i\<close> has this type.

  Signed scalar types are left out: the shifts and conversions below are those of unsigned
  operands. Sums of template arguments in \<^verbatim>\<open>requires\<close> clauses are sums of natural
  numbers: in \<^verbatim>\<open>unsigned\<close> or \<^verbatim>\<open>std::size_t\<close> they wrap around only for arguments of
  at least \<open>2 ^ 31\<close>, far above the width of any scalar type.
\<close>

datatype compile_error =
    Constraints_not_satisfied
  | Not_a_constant_expression
  | Static_assertion_failed
  | No_matching_function
  | Redeclaration
  | Hides_base_member

type_synonym c_int = "32 word"

section \<open>bits.hpp\<close>

text \<open>
  \<^verbatim>\<open>E1 << E2\<close> on \<^verbatim>\<open>int\<close>: undefined (hence not a constant expression) when the right
  operand is at least the width of the promoted left operand, otherwise the unique value
  congruent to \<open>E1 * 2 ^ E2\<close> modulo \<open>2 ^ 32\<close> (C++20).
\<close>

definition int_shift_left :: "c_int \<Rightarrow> nat \<Rightarrow> compile_error + c_int" where
  "int_shift_left e1 e2 =
     (if e2 < LENGTH(32) then Inr (push_bit e2 e1) else Inl Not_a_constant_expression)"

text \<open>
  \<^verbatim>\<open>static_cast<T>(e)\<close> for \<^verbatim>\<open>e\<close> of type \<^verbatim>\<open>int\<close>: the value of \<^verbatim>\<open>e\<close> as a signed
  integer, reduced modulo \<open>2 ^ bits<T>\<close>.
\<close>

definition static_cast_int :: "c_int \<Rightarrow> 'a::len word" where
  "static_cast_int e = word_of_int (sint e)"

text \<open>
  The body of the lambda that initialises \<^verbatim>\<open>bit_mask\<close>:
  \<^verbatim>\<open>for (unsigned i = NStart; i < NStart + NCount; ++i) value |= static_cast<T>(1 << i);\<close>
  with \<open>n\<close> the loop bound \<^verbatim>\<open>NStart + NCount\<close>.
\<close>

function bit_mask_loop :: "nat \<Rightarrow> nat \<Rightarrow> 'a::len word \<Rightarrow> compile_error + 'a word" where
  "bit_mask_loop i n val =
     (if i < n then
        (case int_shift_left 1 i of
           Inl e \<Rightarrow> Inl e
         | Inr b \<Rightarrow> bit_mask_loop (i + 1) n (val OR static_cast_int b))
      else Inr val)"
  by pat_completeness auto
termination
  by (relation "measure (\<lambda>(i, n, val). n - i)") auto

declare bit_mask_loop.simps [simp del]

text \<open>
  \<^verbatim>\<open>bit_mask<T, NStart, NCount>\<close> with its \<^verbatim>\<open>requires\<close> clause. The sum
  \<^verbatim>\<open>NStart + NCount\<close> is a sum of natural numbers; the code adds in \<^verbatim>\<open>unsigned\<close>, where
  the sum wraps around from \<open>2 ^ 32\<close> on and the code then accepts an empty mask. No span
  that fits a scalar type comes near, and these arguments are not covered here.
\<close>

definition bit_mask :: "nat \<Rightarrow> nat \<Rightarrow> compile_error + 'a::len word" where
  "bit_mask NStart NCount =
     (if NCount > 0 \<and> NStart + NCount \<le> LENGTH('a)
      then bit_mask_loop NStart (NStart + NCount) 0
      else Inl Constraints_not_satisfied)"

text \<open>
  \<^verbatim>\<open>extract_bits<NBits, NSourceOffset, TSource, TDestination, NDestinationOffset, BSkipMask>\<close>.
  The mask is a \<^verbatim>\<open>constexpr\<close> local, so it is evaluated whether or not \<^verbatim>\<open>BSkipMask\<close>
  is set. The shifted operands are unsigned, so \<^verbatim>\<open>>>\<close> is a logical shift and the
  conversion to the destination is a zero extension or a truncation.
\<close>

definition extract_bits ::
  "nat \<Rightarrow> nat \<Rightarrow> nat \<Rightarrow> bool \<Rightarrow> 'a::len word \<Rightarrow> compile_error + 'b::len word" where
  "extract_bits NBits NSourceOffset NDestinationOffset BSkipMask source =
     (if \<not> (NBits > 0 \<and> LENGTH('a) \<ge> NBits + NSourceOffset
              \<and> LENGTH('b) \<ge> NBits + NDestinationOffset)
      then Inl Constraints_not_satisfied
      else
        (case (bit_mask NSourceOffset NBits :: compile_error + 'a word) of
           Inl e \<Rightarrow> Inl e
         | Inr msk \<Rightarrow>
             (let shift = int NSourceOffset - int NDestinationOffset;
                  source_bits = (if \<not> BSkipMask then source AND msk else source)
              in if shift = 0 then Inr (ucast source_bits)
                 else if shift > 0 then Inr (ucast (drop_bit (nat shift) source_bits))
                 else Inr (push_bit (nat (- shift)) (ucast source_bits)))))"

section \<open>bit_field.hpp\<close>

datatype bit_field_assignment_strategy =
    unchecked_strategy
  | mask_strategy
  | return_bool
  | exception
  | no_override_strategy

text \<open>
  The two offset sentinels: \<^verbatim>\<open>std::numeric_limits<std::size_t>::max()\<close> and its
  predecessor, with a 64-bit \<^verbatim>\<open>std::size_t\<close>.
\<close>

definition no_override :: nat where
  "no_override = 2 ^ 64 - 1"

definition no_shift :: nat where
  "no_shift = no_override - 1"

text \<open>
  The data members of \<^verbatim>\<open>bit_field_config\<close>. Its type parameter \<^verbatim>\<open>TBitFieldType\<close>
  lives at the level of types: where the source computes \<^verbatim>\<open>effective_storage\<close>, the
  embedding leaves the result type of \<open>get\<close> as a type variable.
\<close>

record bit_field_config =
  offset :: nat
  strategy :: bit_field_assignment_strategy

text \<open>\<^verbatim>\<open>bit_field_config{}\<close>: both members take their default member initialisers.\<close>

definition bit_field_config_default :: bit_field_config where
  "bit_field_config_default = \<lparr>offset = no_override, strategy = no_override_strategy\<rparr>"

text \<open>The template parameters of \<^verbatim>\<open>bit_field<NBits, NOffset, TDefaultConfig>\<close>.\<close>

record bit_field =
  NBits :: nat
  NOffset :: nat
  TDefaultConfig :: bit_field_config

text \<open>config.hpp: \<^verbatim>\<open>#define BIT_FIELD_DEFAULT_STRATEGY mask\<close> unless the user defines it.\<close>

definition BIT_FIELD_DEFAULT_STRATEGY :: bit_field_assignment_strategy where
  "BIT_FIELD_DEFAULT_STRATEGY = mask_strategy"

definition effective_offset :: "bit_field \<Rightarrow> bit_field_config \<Rightarrow> nat" where
  "effective_offset f TConfig =
     (if offset TConfig = no_override then
        (if offset (TDefaultConfig f) = no_override then 0
         else
           (if offset (TDefaultConfig f) = no_shift then NOffset f
            else offset (TDefaultConfig f)))
      else
        (if offset TConfig = no_shift then NOffset f
         else offset TConfig))"

definition effective_strategy :: "bit_field \<Rightarrow> bit_field_config \<Rightarrow> bit_field_assignment_strategy" where
  "effective_strategy f TConfig =
     (if strategy TConfig = no_override_strategy then
        (if strategy (TDefaultConfig f) = no_override_strategy then BIT_FIELD_DEFAULT_STRATEGY
         else strategy (TDefaultConfig f))
      else strategy TConfig)"

text \<open>
  \<^verbatim>\<open>get<TConfig>(value)\<close>: the source type \<open>'s\<close> is the type of the argument, the
  destination type \<open>'r\<close> is \<^verbatim>\<open>effective_storage<TConfig, TStorage>\<close>.
\<close>

definition get :: "bit_field \<Rightarrow> bit_field_config \<Rightarrow> 's::len word \<Rightarrow> compile_error + 'r::len word" where
  "get f TConfig val =
     (if strategy TConfig \<noteq> no_override_strategy then Inl Static_assertion_failed
      else extract_bits (NBits f) (NOffset f) (effective_offset f TConfig) False val)"

text \<open>
  The lambda \<^verbatim>\<open>set_helper<skip_mask>\<close> of \<^verbatim>\<open>set_impl\<close>, returning the new content of
  \<^verbatim>\<open>into\<close>.
\<close>

definition set_helper ::
  "bit_field \<Rightarrow> bit_field_config \<Rightarrow> bool \<Rightarrow> 's::len word \<Rightarrow> 'v::len word \<Rightarrow> compile_error + 's word" where
  "set_helper f TConfig skip_mask into val =
     (case (bit_mask (NOffset f) (NBits f) :: compile_error + 's word) of
        Inl e \<Rightarrow> Inl e
      | Inr msk \<Rightarrow>
          (case extract_bits (NBits f) (effective_offset f TConfig) (NOffset f) skip_mask val of
             Inl e \<Rightarrow> Inl e
           | Inr moved \<Rightarrow> Inr ((into AND NOT msk) OR moved)))"

text \<open>
  How a call of \<^verbatim>\<open>set\<close> ends at run time: the \<^verbatim>\<open>void\<close> overload returns, the
  \<^verbatim>\<open>bool\<close> overload returns a value, or \<^verbatim>\<open>bit_field_error\<close> is thrown.
\<close>

datatype set_result = returns_void | returns bool | throws_bit_field_error

text \<open>
  \<^verbatim>\<open>set_impl<TConfig>(into, value)\<close> with exceptions enabled; both overloads of
  \<^verbatim>\<open>set\<close> forward to it. The result pairs the content of \<^verbatim>\<open>into\<close> after the call
  with the way the call ended. All templates named in a branch are instantiated when the
  branch is compiled, whatever the run-time value, so their rejection comes first.
\<close>

definition set_impl ::
  "bit_field \<Rightarrow> bit_field_config \<Rightarrow> 's::len word \<Rightarrow> 'v::len word
     \<Rightarrow> compile_error + ('s word \<times> set_result)" where
  "set_impl f TConfig into val =
     (if effective_strategy f TConfig = unchecked_strategy then
        (case set_helper f TConfig True into val of
           Inl e \<Rightarrow> Inl e
         | Inr into' \<Rightarrow> Inr (into', returns_void))
      else if effective_strategy f TConfig = mask_strategy then
        (case set_helper f TConfig False into val of
           Inl e \<Rightarrow> Inl e
         | Inr into' \<Rightarrow> Inr (into', returns_void))
      else if effective_strategy f TConfig = return_bool then
        (case (bit_mask (effective_offset f TConfig) (NBits f) :: compile_error + 'v word) of
           Inl e \<Rightarrow> Inl e
         | Inr msk \<Rightarrow>
             (case set_helper f TConfig True into val of
                Inl e \<Rightarrow> Inl e
              | Inr into' \<Rightarrow>
                  (if val AND NOT msk \<noteq> 0 then Inr (into, returns False)
                   else Inr (into', returns True))))
      else if effective_strategy f TConfig = exception then
        (case (bit_mask (effective_offset f TConfig) (NBits f) :: compile_error + 'v word) of
           Inl e \<Rightarrow> Inl e
         | Inr msk \<Rightarrow>
             (case set_helper f TConfig True into val of
                Inl e \<Rightarrow> Inl e
              | Inr into' \<Rightarrow>
                  (if val AND NOT msk \<noteq> 0 then Inr (into, throws_bit_field_error)
                   else Inr (into', returns_void))))
      else Inl Static_assertion_failed)"

section \<open>counter.hpp\<close>

text \<open>
  A compile-time counter is the overload set of one function name in one class: the list
  holds the \<open>N\<close> of every overload taking \<^verbatim>\<open>counter<N>\<close> that the class declares, in
  declaration order.
\<close>

type_synonym counter = "nat list"

definition COUNTER_INITIALIZE :: "nat \<Rightarrow> counter" where
  "COUNTER_INITIALIZE initial_value = [initial_value]"

text \<open>
  \<^verbatim>\<open>decltype(name(counter<max_value>{}))::value\<close>, for the overload set that lookup of
  \<^verbatim>\<open>name\<close> finds: an overload for \<^verbatim>\<open>counter<N>\<close> is viable when \<^verbatim>\<open>counter<max_value>\<close>
  derives from \<^verbatim>\<open>counter<N>\<close>, that is when \<open>N \<le> max_value\<close>, and the most derived base
  wins; with no viable overload the call does not compile.
\<close>

definition COUNTER_VALUE :: "counter \<Rightarrow> nat \<Rightarrow> compile_error + nat" where
  "COUNTER_VALUE name max_value =
     (case filter (\<lambda>n. n \<le> max_value) name of
        [] \<Rightarrow> Inl No_matching_function
      | n # ns \<Rightarrow> Inr (fold max ns n))"

text \<open>
  \<^verbatim>\<open>COUNTER_ADD(name, add_value, max_value)\<close> reads the counter through \<^verbatim>\<open>name\<close> and
  declares, in the class it is expanded in, an overload of the function \<^verbatim>\<open>count\<close>,
  whatever \<^verbatim>\<open>name\<close> is. Here \<open>name\<close> is the overload set that lookup of \<^verbatim>\<open>name\<close> finds
  and \<open>count_here\<close> holds the overloads of \<^verbatim>\<open>count\<close> that the class itself has declared
  so far; the result is \<open>count_here\<close> after the declaration. A class may not declare a
  member function twice with one signature.
\<close>

definition COUNTER_ADD :: "counter \<Rightarrow> nat \<Rightarrow> nat \<Rightarrow> counter \<Rightarrow> compile_error + counter" where
  "COUNTER_ADD name add_value max_value count_here =
     (case COUNTER_VALUE name max_value of
        Inl e \<Rightarrow> Inl e
      | Inr v \<Rightarrow>
          (if v + add_value \<in> set count_here then Inl Redeclaration
           else Inr (count_here @ [v + add_value])))"

section \<open>bit_field_builder.hpp\<close>

text \<open>
  \<^verbatim>\<open>detail::make_config<TDefaultConfig, TArgs...>\<close>; the pack \<^verbatim>\<open>TArgs\<close> is a list.
\<close>

definition make_config :: "bit_field_config \<Rightarrow> bit_field_config list \<Rightarrow> bit_field_config" where
  "make_config TDefault TArgs =
     (case TArgs of
        [] \<Rightarrow> TDefault
      | given_config # _ \<Rightarrow>
          \<lparr>offset = (if offset given_config \<noteq> no_override then offset given_config
                     else offset TDefault),
           strategy = (if strategy given_config \<noteq> no_override_strategy then strategy given_config
                       else strategy TDefault)\<rparr>)"

text \<open>
  The members that a class derived from \<^verbatim>\<open>bit_field_builder<TDerived, T, TDefaultConfig>\<close>
  has declared so far through the two macros: its own overloads of \<^verbatim>\<open>count\<close>, and the
  field types \<^verbatim>\<open>using name = bit_field<...>\<close> in declaration order; with every field type
  come the accessor templates \<^verbatim>\<open>get_name\<close> and \<^verbatim>\<open>set_name\<close>. The parameters \<open>max_field\<close>
  (\<^verbatim>\<open>bits<T>\<close>) and \<open>default_config\<close> are those of the base class. Field names are
  identifiers; members that the derived class declares by other means, and its own name,
  are not part of the model.
\<close>

record builder =
  count :: counter
  field_types :: "(string \<times> bit_field) list"

text \<open>A derived class before its first declaration.\<close>

definition bit_field_builder :: builder where
  "bit_field_builder = \<lparr>count = [], field_types = []\<rparr>"

text \<open>
  The base class declares \<^verbatim>\<open>COUNTER_INITIALIZE(count, 0)\<close>. Lookup of \<^verbatim>\<open>count\<close> in the
  derived class, qualified or not, finds the overloads that the derived class has declared;
  they hide the base's overload, which is found only as long as there are none.
\<close>

definition lookup_count :: "builder \<Rightarrow> counter" where
  "lookup_count self = (if count self = [] then COUNTER_INITIALIZE 0 else count self)"

text \<open>
  The names that one \<^verbatim>\<open>BIT_FIELD(name, ...)\<close> declares in the derived class: the field
  type and, by token pasting, its accessors.
\<close>

definition names_of_field :: "string \<Rightarrow> string list" where
  "names_of_field name = [name, ''get_'' @ name, ''set_'' @ name]"

text \<open>The names that the field declarations of the derived class have introduced so far.\<close>

definition member_names :: "builder \<Rightarrow> string list" where
  "member_names self = concat (map (\<lambda>(name, f). names_of_field name) (field_types self))"

text \<open>
  A name is resolved where it is used, as the counter itself requires, and a field type
  hides a member of the base class of the same name from its declaration on. The
  expansion of \<^verbatim>\<open>BIT_FIELD\<close> names three members of the base class after it has declared
  the field type: \<^verbatim>\<open>count\<close> and \<^verbatim>\<open>max_field\<close> in \<^verbatim>\<open>COUNTER_ADD\<close>, and \<^verbatim>\<open>raw_value\<close>
  in the bodies of the accessors, which see every member of the complete class. A field
  of one of these names is ill-formed. It names \<^verbatim>\<open>default_config\<close> inside the declaration
  of the field type, where only an earlier field type can hide it.
\<close>

definition base_members_used :: "string list" where
  "base_members_used = [''count'', ''max_field'', ''raw_value'']"

text \<open>
  \<^verbatim>\<open>is_complete()\<close>:
  \<^verbatim>\<open>COUNTER_VALUE(TDerived::count, max_field) == max_field\<close>.
\<close>

definition is_complete :: "nat \<Rightarrow> builder \<Rightarrow> compile_error + bool" where
  "is_complete max_field self =
     (case COUNTER_VALUE (lookup_count self) max_field of
        Inl e \<Rightarrow> Inl e
      | Inr v \<Rightarrow> Inr (v = max_field))"

text \<open>\<^verbatim>\<open>BIT_FIELD_PAD(num_bits)\<close>: \<^verbatim>\<open>COUNTER_ADD(count, num_bits, max_field)\<close>.\<close>

definition BIT_FIELD_PAD :: "nat \<Rightarrow> nat \<Rightarrow> builder \<Rightarrow> compile_error + builder" where
  "BIT_FIELD_PAD max_field num_bits self =
     (case COUNTER_ADD (lookup_count self) num_bits max_field (count self) of
        Inl e \<Rightarrow> Inl e
      | Inr c \<Rightarrow> Inr (self\<lparr>count := c\<rparr>))"

text \<open>
  \<^verbatim>\<open>BIT_FIELD(name, num_bits, ...)\<close>: the \<^verbatim>\<open>static_assert\<close>, the declarations of
  \<^verbatim>\<open>name\<close>, \<^verbatim>\<open>get_name\<close> and \<^verbatim>\<open>set_name\<close>, none of which the class may have declared
  before, and the padding.
\<close>

definition BIT_FIELD ::
  "nat \<Rightarrow> bit_field_config \<Rightarrow> string \<Rightarrow> nat \<Rightarrow> bit_field_config list \<Rightarrow> builder
     \<Rightarrow> compile_error + builder" where
  "BIT_FIELD max_field default_config name num_bits args self =
     (case COUNTER_VALUE (lookup_count self) max_field of
        Inl e \<Rightarrow> Inl e
      | Inr v \<Rightarrow>
          (if \<not> v + num_bits \<le> max_field then Inl Static_assertion_failed
           else if ''default_config'' \<in> set (map fst (field_types self))
                then Inl Hides_base_member
           else if name \<in> set (member_names self)
                   \<or> ''get_'' @ name \<in> set (member_names self)
                   \<or> ''set_'' @ name \<in> set (member_names self) then Inl Redeclaration
           else if name \<in> set base_members_used then Inl Hides_base_member
           else BIT_FIELD_PAD max_field num_bits
                  (self\<lparr>field_types := field_types self @
                     [(name, \<lparr>NBits = num_bits, NOffset = v,
                              TDefaultConfig = make_config default_config args\<rparr>)]\<rparr>)))"

text \<open>The member specification of a derived class: a sequence of macro invocations.\<close>

datatype member_declaration =
    Field string nat "bit_field_config list"
  | Pad nat

fun num_bits_of :: "member_declaration \<Rightarrow> nat" where
  "num_bits_of (Field name num_bits args) = num_bits"
| "num_bits_of (Pad num_bits) = num_bits"

fun declare_member :: "nat \<Rightarrow> bit_field_config \<Rightarrow> member_declaration \<Rightarrow> builder \<Rightarrow> compile_error + builder" where
  "declare_member max_field default_config (Field name num_bits args) self =
     BIT_FIELD max_field default_config name num_bits args self"
| "declare_member max_field default_config (Pad num_bits) self =
     BIT_FIELD_PAD max_field num_bits self"

fun declare_members ::
  "nat \<Rightarrow> bit_field_config \<Rightarrow> member_declaration list \<Rightarrow> builder \<Rightarrow> compile_error + builder" where
  "declare_members max_field default_config [] self = Inr self"
| "declare_members max_field default_config (d # ds) self =
     (case declare_member max_field default_config d self of
        Inl e \<Rightarrow> Inl e
      | Inr self' \<Rightarrow> declare_members max_field default_config ds self')"

section \<open>Notions of the specification\<close>

text \<open>
  The mask of the specification: the value whose bits at positions \<open>start\<close> through
  \<open>start + len - 1\<close> are set and whose every other bit is clear.
\<close>

definition span_mask :: "nat \<Rightarrow> nat \<Rightarrow> 'a::len word" where
  "span_mask start len = push_bit start (mask len)"

text \<open>
  The bits above position 31 that the conversion of the negative \<^verbatim>\<open>int\<close> value
  \<^verbatim>\<open>1 << 31\<close> to a wider type sets in addition.
\<close>

definition sign_fill :: "nat \<Rightarrow> nat \<Rightarrow> 'a::len word" where
  "sign_fill start len = (if start + len = 32 then NOT (mask 32) else 0)"

text \<open>
  The three ways an offset attribute can be given, and the resolution of the specification:
  the call site first, then the field default, then the global default 0.
\<close>

datatype offset_request = Unspecified | Keep_source_position | Position nat

definition offset_request_of :: "nat \<Rightarrow> offset_request" where
  "offset_request_of x =
     (if x = no_override then Unspecified
      else if x = no_shift then Keep_source_position
      else Position x)"

fun resolve_layer :: "nat \<Rightarrow> offset_request \<Rightarrow> nat option" where
  "resolve_layer storage_offset Unspecified = None"
| "resolve_layer storage_offset Keep_source_position = Some storage_offset"
| "resolve_layer storage_offset (Position p) = Some p"

definition merged_offset :: "nat \<Rightarrow> offset_request \<Rightarrow> offset_request \<Rightarrow> nat" where
  "merged_offset storage_offset call_site field_default =
     (case resolve_layer storage_offset call_site of
        Some p \<Rightarrow> p
      | None \<Rightarrow>
          (case resolve_layer storage_offset field_default of
             Some p \<Rightarrow> p
           | None \<Rightarrow> 0))"

text \<open>
  The fields a layout is expected to have: one per field declaration, in order, at the
  offset that is the sum of the bit counts of all earlier declarations, padding included.
\<close>

definition declared_fields :: "bit_field_config \<Rightarrow> member_declaration list \<Rightarrow> (string \<times> bit_field) list" where
  "declared_fields default_config ds =
     concat (map (\<lambda>i. case ds ! i of
                         Field name num_bits args \<Rightarrow>
                           [(name, \<lparr>NBits = num_bits,
                                    NOffset = sum_list (map num_bits_of (take i ds)),
                                    TDefaultConfig = make_config default_config args\<rparr>)]
                       | Pad num_bits \<Rightarrow> [])
                 [0..<length ds])"

text \<open>The same, with the running total starting at \<open>c\<close>.\<close>

definition fields_from :: "bit_field_config \<Rightarrow> nat \<Rightarrow> member_declaration list \<Rightarrow> (string \<times> bit_field) list" where
  "fields_from default_config c ds =
     concat (map (\<lambda>i. case ds ! i of
                         Field name num_bits args \<Rightarrow>
                           [(name, \<lparr>NBits = num_bits,
                                    NOffset = c + sum_list (map num_bits_of (take i ds)),
                                    TDefaultConfig = make_config default_config args\<rparr>)]
                       | Pad num_bits \<Rightarrow> [])
                 [0..<length ds])"

text \<open>
  The state of the counter after declarations that sum to \<open>c\<close>: either the derived
  class has declared no overload yet and \<open>c\<close> is 0, or it has declared one for \<open>c\<close> and
  none for a larger number.
\<close>

definition counter_is :: "nat \<Rightarrow> nat \<Rightarrow> builder \<Rightarrow> bool" where
  "counter_is max_field c self \<longleftrightarrow>
     c \<le> max_field \<and>
     (if count self = [] then c = 0
      else c \<in> set (count self) \<and> (\<forall>n\<in>set (count self). n \<le> c))"

text \<open>
  The field names of a sequence of declarations, and the names that one declaration
  introduces.
\<close>

fun field_names :: "member_declaration list \<Rightarrow> string list" where
  "field_names [] = []"
| "field_names (Field name num_bits args # ds) = name # field_names ds"
| "field_names (Pad num_bits # ds) = field_names ds"

fun own_names :: "member_declaration \<Rightarrow> string list" where
  "own_names (Field name num_bits args) = names_of_field name"
| "own_names (Pad num_bits) = []"

fun own_field_name :: "member_declaration \<Rightarrow> string list" where
  "own_field_name (Field name num_bits args) = [name]"
| "own_field_name (Pad num_bits) = []"

text \<open>Only the last field of a class may be called \<^verbatim>\<open>default_config\<close>.\<close>

definition default_config_last :: "string list \<Rightarrow> bool" where
  "default_config_last names \<longleftrightarrow> ''default_config'' \<notin> set (butlast names)"

text \<open>
  The layout of the README: five bits, two bits read as a byte and left in place,
  22 bits of padding, three bits, over \<^verbatim>\<open>std::uint32_t\<close>.
\<close>

definition my_bit_field :: "member_declaration list" where
  "my_bit_field =
     [Field ''field1'' 5 [],
      Field ''field2'' 2 [\<lparr>offset = no_shift, strategy = no_override_strategy\<rparr>],
      Pad 22,
      Field ''field3'' 3 []]"

text \<open>The three fields that the layout of the README is expected to produce.\<close>

definition field1 :: bit_field where
  "field1 = \<lparr>NBits = 5, NOffset = 0, TDefaultConfig = bit_field_config_default\<rparr>"

definition field2 :: bit_field where
  "field2 = \<lparr>NBits = 2, NOffset = 5,
              TDefaultConfig = \<lparr>offset = no_shift, strategy = no_override_strategy\<rparr>\<rparr>"

definition field3 :: bit_field where
  "field3 = \<lparr>NBits = 3, NOffset = 29, TDefaultConfig = bit_field_config_default\<rparr>"

text \<open>
  The low half of a 64-bit word, \<^verbatim>\<open>bit_field<32, 0>\<close>, with the default configuration.
\<close>

definition low_half :: bit_field where
  "low_half = \<lparr>NBits = 32, NOffset = 0, TDefaultConfig = bit_field_config_default\<rparr>"

section \<open>The mask that \<open>bit_mask\<close> computes\<close>

lemma static_cast_int_scast: "static_cast_int e = scast e"
  by (simp add: static_cast_int_def)

lemma bit_static_cast_int_one:
  assumes "i < 32"
  shows "bit (static_cast_int (push_bit i 1) :: 'a::len word) k
           \<longleftrightarrow> k < LENGTH('a) \<and> (k = i \<or> (i = 31 \<and> 31 \<le> k))"
  using assms
  by (auto simp add: static_cast_int_scast bit_simps min_def)

lemma bit_static_cast_int_power:
  assumes "i < 32"
  shows "bit (static_cast_int (2 ^ i) :: 'a::len word) k
           \<longleftrightarrow> k < LENGTH('a) \<and> (k = i \<or> (i = 31 \<and> 31 \<le> k))"
  using bit_static_cast_int_one [OF assms, where ?'a = 'a] by simp

lemma bit_mask_loop_undefined:
  "i < n \<Longrightarrow> 32 < n \<Longrightarrow> bit_mask_loop i n val = Inl Not_a_constant_expression"
proof (induction i n val rule: bit_mask_loop.induct)
  case (1 i n val)
  show ?case
  proof (cases "i < 32")
    case True
    with 1 show ?thesis
      by (subst bit_mask_loop.simps) (simp add: int_shift_left_def)
  next
    case False
    with 1 show ?thesis
      by (subst bit_mask_loop.simps) (simp add: int_shift_left_def)
  qed
qed

lemma bit_mask_loop_defined:
  "n \<le> 32 \<Longrightarrow> \<exists>w. bit_mask_loop i n val = Inr w \<and>
     (\<forall>k. bit w k \<longleftrightarrow> bit val k \<or>
        (k < LENGTH('a) \<and> (i \<le> k \<and> k < n \<or> i < n \<and> n = 32 \<and> 31 \<le> k)))"
  for val :: "'a::len word"
proof (induction i n val rule: bit_mask_loop.induct)
  case (1 i n val)
  show ?case
  proof (cases "i < n")
    case False
    then show ?thesis
      by (subst bit_mask_loop.simps) auto
  next
    case True
    with 1(2) have i32: "i < 32" by simp
    have sh: "int_shift_left 1 i = Inr (push_bit i 1)"
      using i32 by (simp add: int_shift_left_def)
    from 1(1) [OF True sh 1(2)]
    obtain w where w: "bit_mask_loop (i + 1) n (val OR static_cast_int (push_bit i 1)) = Inr w"
      and bw: "\<And>k. bit w k \<longleftrightarrow> bit (val OR (static_cast_int (push_bit i 1) :: 'a word)) k \<or>
        (k < LENGTH('a) \<and> (i + 1 \<le> k \<and> k < n \<or> i + 1 < n \<and> n = 32 \<and> 31 \<le> k))"
      by blast
    have "bit_mask_loop i n val = Inr w"
      using True sh w by (subst bit_mask_loop.simps) simp
    moreover have "bit w k \<longleftrightarrow> bit val k \<or>
        (k < LENGTH('a) \<and> (i \<le> k \<and> k < n \<or> i < n \<and> n = 32 \<and> 31 \<le> k))" for k
      using True i32 1(2) by (auto simp add: bw bit_or_iff bit_static_cast_int_power)
    ultimately show ?thesis by blast
  qed
qed

lemma bit_span_mask:
  "bit (span_mask start len :: 'a::len word) k \<longleftrightarrow> k < LENGTH('a) \<and> start \<le> k \<and> k < start + len"
  by (auto simp add: span_mask_def bit_simps)

lemma bit_sign_fill:
  "bit (sign_fill start len :: 'a::len word) k \<longleftrightarrow> start + len = 32 \<and> 32 \<le> k \<and> k < LENGTH('a)"
  by (auto simp add: sign_fill_def bit_simps)

lemma bit_mask_eq:
  "(bit_mask start len :: compile_error + 'a::len word) =
     (if \<not> (0 < len \<and> start + len \<le> LENGTH('a)) then Inl Constraints_not_satisfied
      else if 32 < start + len then Inl Not_a_constant_expression
      else Inr (span_mask start len OR sign_fill start len))"
proof -
  have "(bit_mask_loop start (start + len) 0 :: compile_error + 'a word) =
          Inr (span_mask start len OR sign_fill start len)"
    if "0 < len" "start + len \<le> 32"
  proof -
    from bit_mask_loop_defined [OF that(2), of start "0 :: 'a word"]
    obtain w :: "'a word" where w: "bit_mask_loop start (start + len) 0 = Inr w"
      and bw: "\<And>k. bit w k \<longleftrightarrow> (k < LENGTH('a) \<and> (start \<le> k \<and> k < start + len
                 \<or> start < start + len \<and> start + len = 32 \<and> 31 \<le> k))"
      by auto
    have "w = span_mask start len OR sign_fill start len"
      using that by (intro bit_eqI) (auto simp add: bw bit_or_iff bit_span_mask bit_sign_fill)
    with w show ?thesis by simp
  qed
  then show ?thesis
    by (simp add: bit_mask_def bit_mask_loop_undefined)
qed

lemma sign_fill_narrow: "LENGTH('a) \<le> 32 \<or> start + len < 32 \<Longrightarrow> (sign_fill start len :: 'a::len word) = 0"
  by (intro bit_eqI) (auto simp add: bit_sign_fill)

lemma bit_mask_exact:
  assumes "LENGTH('a::len) \<le> 32 \<or> start + len < 32"
  shows "(bit_mask start len :: compile_error + 'a word) =
           (if 0 < len \<and> start + len \<le> LENGTH('a) then Inr (span_mask start len)
            else Inl Constraints_not_satisfied)"
  using assms by (auto simp add: bit_mask_eq sign_fill_narrow)

lemmas mask_eval = bit_mask_eq span_mask_def sign_fill_def mask_eq_exp_minus_1

lemmas config_defs =
  bit_field_config_default_def effective_offset_def effective_strategy_def
  BIT_FIELD_DEFAULT_STRATEGY_def no_override_def no_shift_def

text \<open>
  Claim C5. Mask construction is total and exact on its stated domain: whenever
  \<open>len > 0\<close> and \<open>start + len\<close> is at most the width of \<open>T\<close>, \<^verbatim>\<open>bit_mask<T, start, len>\<close>
  is defined and has exactly the bits \<open>start\<close> through \<open>start + len - 1\<close> set, and it is rejected
  exactly outside that domain. For types of at most 32 bits this is \<open>bit_mask_exact\<close>. For
  \<^verbatim>\<open>std::uint64_t\<close> the code departs from it, because \<^verbatim>\<open>1 << i\<close> is computed in \<^verbatim>\<open>int\<close>:
  a mask that ends at bit 31 also has the bits 32 to 63 set, and a mask that reaches beyond
  bit 31 is not a constant expression, so it is rejected although it lies in the domain.
\<close>

theorem bit_mask_uint64_sign_extended:
  "(bit_mask 0 32 :: compile_error + 64 word) = Inr 0xFFFFFFFFFFFFFFFF
   \<and> (span_mask 0 32 :: 64 word) = 0xFFFFFFFF
   \<and> (bit_mask 31 1 :: compile_error + 64 word) = Inr 0xFFFFFFFF80000000
   \<and> (span_mask 31 1 :: 64 word) = 0x80000000
   \<and> (bit_mask 32 1 :: compile_error + 64 word) = Inl Not_a_constant_expression"
  by (simp add: mask_eval)

section \<open>Bit relocation\<close>

lemma extract_bits_exact:
  fixes s :: "'a::len word"
  assumes "0 < n" "so + n \<le> LENGTH('a)" "dd + n \<le> LENGTH('b::len)"
    and "LENGTH('a) \<le> 32 \<or> so + n < 32"
  shows "\<exists>d :: 'b word. extract_bits n so dd False s = Inr d \<and>
           (\<forall>k. bit d k \<longleftrightarrow> dd \<le> k \<and> k < dd + n \<and> bit s (so + (k - dd)))"
proof -
  have le32: "\<not> 32 < so + n" using assms by auto
  have m: "(bit_mask so n :: compile_error + 'a word) = Inr (span_mask so n)"
    using assms le32 by (simp add: bit_mask_eq sign_fill_narrow)
  consider "so = dd" | "dd < so" | "so < dd" by linarith
  then show ?thesis
  proof cases
    case 1
    with assms m show ?thesis
      by (auto simp add: extract_bits_def Let_def bit_simps bit_span_mask intro!: bit_eqI)
  next
    case 2
    with assms m show ?thesis
      apply (simp add: extract_bits_def Let_def)
      apply (auto simp add: bit_simps bit_span_mask nat_diff_distrib ac_simps)
      done
  next
    case 3
    with assms m show ?thesis
      apply (simp add: extract_bits_def Let_def)
      apply (auto simp add: bit_simps bit_span_mask nat_diff_distrib ac_simps)
      done
  qed
qed

text \<open>
  Claim C1. Bit relocation is exact: for \<open>n > 0\<close> and source and destination types wide
  enough, \<^verbatim>\<open>extract_bits\<close> without \<^verbatim>\<open>BSkipMask\<close> returns a value whose bit \<open>do + k\<close> is
  the bit \<open>so + k\<close> of the source for \<open>k < n\<close> and whose other bits are zero. Where the
  source mask is exact this is \<open>extract_bits_exact\<close>. With a \<^verbatim>\<open>std::uint64_t\<close> source and a
  span that ends at bit 31 the code returns source bits from above the span: bit 32 of the
  source is set, no bit of the span is, and the result is not zero. A span that reaches
  beyond bit 31 is rejected, although the type is wide enough.
\<close>

theorem extract_bits_uint64_leaks:
  "(extract_bits 32 0 0 False (0x100000000 :: 64 word) :: compile_error + 64 word) = Inr 0x100000000
   \<and> (0x100000000 :: 64 word) AND span_mask 0 32 = 0
   \<and> (extract_bits 1 31 0 False (0x100000000 :: 64 word) :: compile_error + 64 word) = Inr 2
   \<and> (0x100000000 :: 64 word) AND span_mask 31 1 = 0
   \<and> (extract_bits 1 32 0 False (0x100000000 :: 64 word) :: compile_error + 64 word)
        = Inl Not_a_constant_expression"
  by (simp add: extract_bits_def mask_eval)

section \<open>Sequential layout\<close>

lemma COUNTER_VALUE_iff:
  "COUNTER_VALUE name m = Inr v \<longleftrightarrow> v \<in> set name \<and> v \<le> m \<and> (\<forall>n\<in>set name. n \<le> m \<longrightarrow> n \<le> v)"
proof (cases "filter (\<lambda>n. n \<le> m) name")
  case Nil
  then have "n \<in> set name \<Longrightarrow> \<not> n \<le> m" for n
    by (auto simp add: filter_empty_conv)
  with Nil show ?thesis
    by (auto simp add: COUNTER_VALUE_def)
next
  case (Cons x xs)
  let ?V = "{n \<in> set name. n \<le> m}"
  have st: "set (x # xs) = ?V"
    using arg_cong [OF Cons, of set] by simp
  have "fold max xs x = Max (set (x # xs))"
    by (simp only: Max.set_eq_fold)
  then have val: "COUNTER_VALUE name m = Inr (Max ?V)"
    by (simp only: COUNTER_VALUE_def Cons st list.case)
  have "finite ?V" "?V \<noteq> {}"
    using st by auto
  then have "Max ?V = v \<longleftrightarrow> v \<in> ?V \<and> (\<forall>n\<in>?V. n \<le> v)"
    by (rule Max_eq_iff)
  with val show ?thesis by auto
qed

lemma counter_is_value:
  "counter_is max_field c self \<Longrightarrow> COUNTER_VALUE (lookup_count self) max_field = Inr c"
  by (auto simp add: counter_is_def COUNTER_VALUE_iff lookup_count_def COUNTER_INITIALIZE_def
      split: if_splits)

lemma counter_is_initial: "counter_is max_field 0 bit_field_builder"
  by (simp add: counter_is_def bit_field_builder_def)

lemma BIT_FIELD_PAD_step:
  assumes "counter_is max_field c self" "c + num_bits \<le> max_field"
    and "BIT_FIELD_PAD max_field num_bits self = Inr self'"
  shows "field_types self' = field_types self \<and> counter_is max_field (c + num_bits) self'"
  using assms(2,3) counter_is_value [OF assms(1)] assms(1)
  by (auto simp add: BIT_FIELD_PAD_def COUNTER_ADD_def counter_is_def trans_le_add1
      split: if_splits)

lemma BIT_FIELD_step:
  assumes "counter_is max_field c self" "c + num_bits \<le> max_field"
    and "BIT_FIELD max_field default_config name num_bits args self = Inr self'"
  shows "field_types self' = field_types self @
             [(name, \<lparr>NBits = num_bits, NOffset = c,
                      TDefaultConfig = make_config default_config args\<rparr>)] \<and>
           counter_is max_field (c + num_bits) self'"
proof -
  let ?self = "self\<lparr>field_types := field_types self @
                     [(name, \<lparr>NBits = num_bits, NOffset = c,
                              TDefaultConfig = make_config default_config args\<rparr>)]\<rparr>"
  have c: "counter_is max_field c ?self"
    using assms(1) by (simp add: counter_is_def)
  have "BIT_FIELD_PAD max_field num_bits ?self = Inr self'"
    using assms(3) counter_is_value [OF assms(1)]
    by (simp add: BIT_FIELD_def split: if_splits)
  from BIT_FIELD_PAD_step [OF c assms(2) this] show ?thesis by simp
qed

lemma fields_from_Nil: "fields_from cfg c [] = []"
  by (simp add: fields_from_def)

lemma fields_from_Cons:
  "fields_from cfg c (d # ds) =
     (case d of Field name num_bits args \<Rightarrow>
         [(name, \<lparr>NBits = num_bits, NOffset = c, TDefaultConfig = make_config cfg args\<rparr>)]
      | Pad num_bits \<Rightarrow> []) @ fields_from cfg (c + num_bits_of d) ds"
proof -
  have "[0..<length (d # ds)] = 0 # map Suc [0..<length ds]"
    by (simp add: upt_conv_Cons map_Suc_upt del: upt_Suc)
  then show ?thesis
    by (simp add: fields_from_def comp_def ac_simps del: upt_Suc cong: member_declaration.case_cong)
qed

lemma declare_member_step:
  assumes "counter_is max_field c self" "c + num_bits_of d \<le> max_field"
    and "declare_member max_field cfg d self = Inr self'"
  shows "field_types self' = field_types self @
            (case d of Field name num_bits args \<Rightarrow>
               [(name, \<lparr>NBits = num_bits, NOffset = c, TDefaultConfig = make_config cfg args\<rparr>)]
             | Pad num_bits \<Rightarrow> []) \<and>
          counter_is max_field (c + num_bits_of d) self'"
proof (cases d)
  case (Field name num_bits args)
  with BIT_FIELD_step [OF assms(1), of num_bits cfg name args self'] assms(2,3)
  show ?thesis by simp
next
  case (Pad num_bits)
  with BIT_FIELD_PAD_step [OF assms(1), of num_bits self'] assms(2,3)
  show ?thesis by simp
qed

lemma declare_members_from:
  assumes "counter_is max_field c self"
    and "c + sum_list (map num_bits_of ds) \<le> max_field"
    and "declare_members max_field cfg ds self = Inr self'"
  shows "field_types self' = field_types self @ fields_from cfg c ds \<and>
           counter_is max_field (c + sum_list (map num_bits_of ds)) self'"
  using assms
proof (induction ds arbitrary: c self)
  case Nil
  then show ?case by (simp add: fields_from_Nil)
next
  case (Cons d ds)
  from Cons.prems(3) obtain self1 where s1: "declare_member max_field cfg d self = Inr self1"
    and s': "declare_members max_field cfg ds self1 = Inr self'"
    by (auto split: sum.splits)
  have fit: "c + num_bits_of d \<le> max_field"
    using Cons.prems(2) by simp
  from declare_member_step [OF Cons.prems(1) fit s1]
  have f1: "field_types self1 = field_types self @
            (case d of Field name num_bits args \<Rightarrow>
               [(name, \<lparr>NBits = num_bits, NOffset = c, TDefaultConfig = make_config cfg args\<rparr>)]
             | Pad num_bits \<Rightarrow> [])"
    and c1: "counter_is max_field (c + num_bits_of d) self1"
    by simp_all
  have "c + num_bits_of d + sum_list (map num_bits_of ds) \<le> max_field"
    using Cons.prems(2) by simp
  from Cons.IH [OF c1 this s']
  show ?case
    using f1 by (simp add: fields_from_Cons ac_simps)
qed

subsection \<open>Which layouts are accepted\<close>

lemma member_names_alt:
  "member_names self = concat (map (names_of_field \<circ> fst) (field_types self))"
  by (simp add: member_names_def names_of_field_def comp_def case_prod_unfold)

lemma BIT_FIELD_PAD_accepted_iff:
  assumes "counter_is max_field c self" "c + num_bits \<le> max_field"
  shows "(\<exists>self'. BIT_FIELD_PAD max_field num_bits self = Inr self')
           \<longleftrightarrow> 0 < num_bits \<or> count self = []"
proof -
  have v: "COUNTER_VALUE (lookup_count self) max_field = Inr c"
    by (rule counter_is_value [OF assms(1)])
  have "c + num_bits \<in> set (count self) \<longleftrightarrow> num_bits = 0 \<and> count self \<noteq> []"
    using assms(1) by (auto simp add: counter_is_def split: if_splits)
  then show ?thesis
    by (auto simp add: BIT_FIELD_PAD_def COUNTER_ADD_def v)
qed

lemma BIT_FIELD_accepted_iff:
  assumes "counter_is max_field c self" "c + num_bits \<le> max_field"
  shows "(\<exists>self'. BIT_FIELD max_field default_config name num_bits args self = Inr self')
           \<longleftrightarrow> (0 < num_bits \<or> count self = [])
               \<and> set (names_of_field name) \<inter> set (member_names self) = {}
               \<and> name \<notin> set base_members_used
               \<and> ''default_config'' \<notin> set (map fst (field_types self))"
proof -
  let ?self = "self\<lparr>field_types := field_types self @
                     [(name, \<lparr>NBits = num_bits, NOffset = c,
                              TDefaultConfig = make_config default_config args\<rparr>)]\<rparr>"
  have v: "COUNTER_VALUE (lookup_count self) max_field = Inr c"
    by (rule counter_is_value [OF assms(1)])
  have c: "counter_is max_field c ?self"
    using assms(1) by (simp add: counter_is_def)
  have p: "(\<exists>self'. BIT_FIELD_PAD max_field num_bits ?self = Inr self')
           \<longleftrightarrow> 0 < num_bits \<or> count self = []"
    using BIT_FIELD_PAD_accepted_iff [OF c assms(2)] by simp
  show ?thesis
    using assms(2) p by (auto simp add: BIT_FIELD_def v names_of_field_def)
qed

lemma field_names_Cons: "field_names (d # ds) = own_field_name d @ field_names ds"
  by (cases d) simp_all

lemma names_Cons:
  "concat (map names_of_field (field_names (d # ds)))
     = own_names d @ concat (map names_of_field (field_names ds))"
  by (cases d) simp_all

lemma distinct_own_names: "distinct (own_names d)"
  by (cases d) (simp_all add: names_of_field_def)

lemma declare_member_accepted_iff:
  assumes "counter_is max_field c self" "c + num_bits_of d \<le> max_field"
  shows "(\<exists>self'. declare_member max_field cfg d self = Inr self')
           \<longleftrightarrow> (0 < num_bits_of d \<or> count self = [])
               \<and> set (own_names d) \<inter> set (member_names self) = {}
               \<and> set (own_field_name d) \<inter> set base_members_used = {}
               \<and> (own_field_name d = [] \<or> ''default_config'' \<notin> set (map fst (field_types self)))"
proof (cases d)
  case (Field name num_bits args)
  with BIT_FIELD_accepted_iff [OF assms(1), of num_bits cfg name args] assms(2)
  show ?thesis by simp
next
  case (Pad num_bits)
  with BIT_FIELD_PAD_accepted_iff [OF assms(1), of num_bits] assms(2)
  show ?thesis by simp
qed

lemma declare_member_after:
  assumes "counter_is max_field c self" "c + num_bits_of d \<le> max_field"
    and "declare_member max_field cfg d self = Inr self'"
  shows "count self' \<noteq> []"
    and "member_names self' = member_names self @ own_names d"
    and "counter_is max_field (c + num_bits_of d) self'"
    and "map fst (field_types self') = map fst (field_types self) @ own_field_name d"
proof -
  from declare_member_step [OF assms]
  have f: "field_types self' = field_types self @
            (case d of Field name num_bits args \<Rightarrow>
               [(name, \<lparr>NBits = num_bits, NOffset = c, TDefaultConfig = make_config cfg args\<rparr>)]
             | Pad num_bits \<Rightarrow> [])"
    and c: "counter_is max_field (c + num_bits_of d) self'"
    by simp_all
  show "counter_is max_field (c + num_bits_of d) self'" by (rule c)
  show "member_names self' = member_names self @ own_names d"
    using f by (cases d) (simp_all add: member_names_alt)
  show "map fst (field_types self') = map fst (field_types self) @ own_field_name d"
    using f by (cases d) simp_all
  show "count self' \<noteq> []"
    using assms(3)
    by (cases d)
      (auto simp add: BIT_FIELD_def BIT_FIELD_PAD_def COUNTER_ADD_def split: sum.splits if_splits)
qed

lemma default_config_last_append:
  "default_config_last (xs @ y # ys) \<Longrightarrow> ''default_config'' \<notin> set xs"
  by (simp add: default_config_last_def butlast_append)

lemma default_config_last_snoc:
  "default_config_last (xs @ [y]) \<longleftrightarrow> ''default_config'' \<notin> set xs"
  by (simp add: default_config_last_def)

lemma declare_members_accepted_from:
  assumes "counter_is max_field c self"
    and "c + sum_list (map num_bits_of ds) \<le> max_field"
    and "distinct (member_names self)"
    and "default_config_last (map fst (field_types self))"
  shows "(\<exists>self'. declare_members max_field cfg ds self = Inr self')
           \<longleftrightarrow> (count self = [] \<and> list_all (\<lambda>d. 0 < num_bits_of d) (tl ds)
                  \<or> list_all (\<lambda>d. 0 < num_bits_of d) ds)
               \<and> distinct (member_names self @ concat (map names_of_field (field_names ds)))
               \<and> set (field_names ds) \<inter> set base_members_used = {}
               \<and> default_config_last (map fst (field_types self) @ field_names ds)"
  using assms
proof (induction ds arbitrary: c self)
  case Nil
  then show ?case by simp
next
  case (Cons d ds)
  have fit: "c + num_bits_of d \<le> max_field"
    and fit': "c + num_bits_of d + sum_list (map num_bits_of ds) \<le> max_field"
    using Cons.prems(2) by simp_all
  let ?seen = "map fst (field_types self)"
  let ?rest = "concat (map names_of_field (field_names ds))"
  let ?A = "0 < num_bits_of d \<or> count self = []"
  let ?B = "set (own_names d) \<inter> set (member_names self) = {}"
  let ?C = "set (own_field_name d) \<inter> set base_members_used = {}"
  let ?E = "own_field_name d = [] \<or> ''default_config'' \<notin> set ?seen"
  let ?P = "list_all (\<lambda>d. 0 < num_bits_of d) ds"
  let ?D = "distinct (member_names self @ own_names d @ ?rest)"
  let ?R = "set (field_names ds) \<inter> set base_members_used = {}"
  let ?Q = "default_config_last (?seen @ own_field_name d @ field_names ds)"
  have first: "(\<exists>self1. declare_member max_field cfg d self = Inr self1)
                 \<longleftrightarrow> ?A \<and> ?B \<and> ?C \<and> ?E"
    by (rule declare_member_accepted_iff [OF Cons.prems(1) fit])
  have rhs: "(count self = [] \<and> list_all (\<lambda>d. 0 < num_bits_of d) (tl (d # ds))
                  \<or> list_all (\<lambda>d. 0 < num_bits_of d) (d # ds))
               \<and> distinct (member_names self @ concat (map names_of_field (field_names (d # ds))))
               \<and> set (field_names (d # ds)) \<inter> set base_members_used = {}
               \<and> default_config_last (?seen @ field_names (d # ds))
             \<longleftrightarrow> ?A \<and> ?C \<and> ?P \<and> ?D \<and> ?R \<and> ?Q"
    by (simp only: names_Cons) (auto simp add: field_names_Cons Int_Un_distrib2)
  have DB: "?D \<Longrightarrow> ?B" by auto
  have QE: "?Q \<Longrightarrow> ?E"
  proof (cases d)
    case (Field name num_bits args)
    assume "?Q"
    then have "''default_config'' \<notin> set ?seen"
      using Field default_config_last_append [of ?seen name "field_names ds"] by simp
    then show ?thesis by simp
  next
    case (Pad num_bits)
    then show ?thesis by simp
  qed
  show ?case
  proof (cases "\<exists>self1. declare_member max_field cfg d self = Inr self1")
    case False
    then have "\<not> (\<exists>self'. declare_members max_field cfg (d # ds) self = Inr self')"
      by (auto split: sum.splits)
    moreover have "\<not> (?A \<and> ?C \<and> ?P \<and> ?D \<and> ?R \<and> ?Q)"
      using False first DB QE by blast
    ultimately show ?thesis
      unfolding rhs by blast
  next
    case True
    then obtain self1 where s1: "declare_member max_field cfg d self = Inr self1" by blast
    note after = declare_member_after [OF Cons.prems(1) fit s1]
    have ok: "?A" "?B" "?C" "?E"
      using True first by blast+
    have d1: "distinct (member_names self1)"
      using after(2) Cons.prems(3) distinct_own_names [of d] ok(2) by auto
    have l1: "default_config_last (map fst (field_types self1))"
      using after(4) ok(4) Cons.prems(4)
      by (cases d) (simp_all add: default_config_last_snoc)
    have "(\<exists>self'. declare_members max_field cfg (d # ds) self = Inr self')
            \<longleftrightarrow> (\<exists>self'. declare_members max_field cfg ds self1 = Inr self')"
      using s1 by simp
    also have "\<dots> \<longleftrightarrow> ?P \<and> distinct (member_names self1 @ ?rest) \<and> ?R
                 \<and> default_config_last (map fst (field_types self1) @ field_names ds)"
      using Cons.IH [OF after(3) fit' d1 l1] after(1) by simp
    also have "\<dots> \<longleftrightarrow> ?A \<and> ?C \<and> ?P \<and> ?D \<and> ?R \<and> ?Q"
      using ok after(2,4) by simp
    finally show ?thesis
      unfolding rhs .
  qed
qed

text \<open>
  The layouts that the compiler accepts, among those that fit the storage word: only the
  first declaration may have zero bits, no two declarations introduce the same name, no
  field hides a member of the base class that the macros name after it, and only the last
  field may be called \<^verbatim>\<open>default_config\<close>.
\<close>

lemma layout_accepted_iff:
  assumes "sum_list (map num_bits_of ds) \<le> max_field"
  shows "(\<exists>self. declare_members max_field cfg ds bit_field_builder = Inr self)
           \<longleftrightarrow> list_all (\<lambda>d. 0 < num_bits_of d) (tl ds)
               \<and> distinct (concat (map names_of_field (field_names ds)))
               \<and> set (field_names ds) \<inter> set base_members_used = {}
               \<and> default_config_last (field_names ds)"
proof -
  have "list_all (\<lambda>d. 0 < num_bits_of d) ds \<Longrightarrow> list_all (\<lambda>d. 0 < num_bits_of d) (tl ds)"
    by (cases ds) simp_all
  then show ?thesis
    using declare_members_accepted_from [OF counter_is_initial, of ds max_field cfg] assms
    by (auto simp add: bit_field_builder_def member_names_def default_config_last_def)
qed

text \<open>
  Some layouts over an 8-bit word. A declaration of zero bits is accepted as the first
  declaration of the class, where the overload it declares hides the one of the base
  class, and rejected later, where the class has declared that overload already. After a
  first padding that exceeds the width no overload is viable. A field name may not be
  repeated, may not collide with an accessor and may not hide a member of the base class
  that the macros name after it. \<^verbatim>\<open>COUNTER_ADD\<close> reads the counter it is given and
  declares an overload of \<^verbatim>\<open>count\<close>.
\<close>

lemmas builder_eval =
  BIT_FIELD_def BIT_FIELD_PAD_def COUNTER_ADD_def
  COUNTER_VALUE_def COUNTER_INITIALIZE_def bit_field_builder_def make_config_def is_complete_def
  lookup_count_def member_names_def names_of_field_def base_members_used_def

lemma layout_examples:
  "declare_members 8 bit_field_config_default [Pad 0, Pad 8] bit_field_builder
     = Inr \<lparr>count = [0, 8], field_types = []\<rparr>"
  "declare_members 8 bit_field_config_default [Pad 3, Pad 0] bit_field_builder
     = Inl Redeclaration"
  "declare_members 8 bit_field_config_default [Pad 10] bit_field_builder
     = Inr \<lparr>count = [10], field_types = []\<rparr>"
  "is_complete 8 \<lparr>count = [10], field_types = []\<rparr> = Inl No_matching_function"
  "declare_members 8 bit_field_config_default [Pad 10, Pad 1] bit_field_builder
     = Inl No_matching_function"
  "declare_members 8 bit_field_config_default [Field ''a'' 1 [], Field ''a'' 1 []] bit_field_builder
     = Inl Redeclaration"
  "declare_members 8 bit_field_config_default [Field ''a'' 1 [], Field ''get_a'' 1 []]
     bit_field_builder = Inl Redeclaration"
  "declare_members 8 bit_field_config_default [Field ''set_a'' 1 [], Field ''a'' 1 []]
     bit_field_builder = Inl Redeclaration"
  "declare_members 8 bit_field_config_default [Field ''raw_value'' 1 []] bit_field_builder
     = Inl Hides_base_member"
  "declare_members 8 bit_field_config_default [Field ''a'' 1 [], Field ''default_config'' 1 []]
     bit_field_builder
     = Inr \<lparr>count = [1, 2],
            field_types =
              [(''a'', \<lparr>NBits = 1, NOffset = 0, TDefaultConfig = bit_field_config_default\<rparr>),
               (''default_config'',
                \<lparr>NBits = 1, NOffset = 1, TDefaultConfig = bit_field_config_default\<rparr>)]\<rparr>"
  "declare_members 8 bit_field_config_default [Field ''default_config'' 1 [], Field ''a'' 1 []]
     bit_field_builder = Inl Hides_base_member"
  "declare_members 8 bit_field_config_default [Field ''a'' 5 [], Field ''b'' 4 []] bit_field_builder
     = Inl Static_assertion_failed"
  "COUNTER_ADD [0, 4] 1 256 [7] = Inr [7, 5]"
  by (simp_all add: builder_eval)

subsection \<open>Offsets and completeness\<close>

text \<open>
  Claim C2. In a layout declared as an ordered sequence of field and padding declarations
  whose bit counts sum to at most the storage width, the field of the \<open>i\<close>-th declaration
  gets as offset the sum of the bit counts of all earlier declarations, padding included
  and starting from 0, and \<^verbatim>\<open>is_complete()\<close> returns true if and only if the bit counts
  sum to exactly the storage width. The layout is one that the compiler accepts;
  \<open>layout_accepted_iff\<close> says which these are.
\<close>

theorem layout_offsets_and_completeness:
  assumes "declare_members max_field default_config ds bit_field_builder = Inr self"
    and "sum_list (map num_bits_of ds) \<le> max_field"
  shows "field_types self = declared_fields default_config ds \<and>
           is_complete max_field self = Inr (sum_list (map num_bits_of ds) = max_field)"
proof -
  from declare_members_from [OF counter_is_initial _ assms(1)] assms(2)
  have f: "field_types self = fields_from default_config 0 ds"
    and c: "counter_is max_field (sum_list (map num_bits_of ds)) self"
    by (simp_all add: bit_field_builder_def)
  have "is_complete max_field self = Inr (sum_list (map num_bits_of ds) = max_field)"
    using counter_is_value [OF c] by (simp add: is_complete_def)
  moreover have "fields_from default_config 0 ds = declared_fields default_config ds"
    by (simp add: fields_from_def declared_fields_def cong: member_declaration.case_cong)
  ultimately show ?thesis using f by simp
qed

theorem layout_offsets_and_completeness_witness:
  "declare_members 32 bit_field_config_default my_bit_field bit_field_builder
     = Inr \<lparr>count = [5, 7, 29, 32],
            field_types = [(''field1'', field1), (''field2'', field2), (''field3'', field3)]\<rparr>
   \<and> sum_list (map num_bits_of my_bit_field) \<le> 32
   \<and> declared_fields bit_field_config_default my_bit_field
        = [(''field1'', field1), (''field2'', field2), (''field3'', field3)]
   \<and> NOffset field1 = 0 \<and> NOffset field2 = 5 \<and> NOffset field3 = 29
   \<and> is_complete 32 \<lparr>count = [5, 7, 29, 32],
            field_types = [(''field1'', field1), (''field2'', field2), (''field3'', field3)]\<rparr>
        = Inr True
   \<and> declare_members 8 bit_field_config_default [Pad 0, Field ''a'' 3 [], Pad 4] bit_field_builder
     = Inr \<lparr>count = [0, 3, 7],
            field_types = [(''a'', \<lparr>NBits = 3, NOffset = 0,
                                    TDefaultConfig = bit_field_config_default\<rparr>)]\<rparr>
   \<and> sum_list (map num_bits_of [Pad 0, Field ''a'' 3 [], Pad 4]) \<le> 8
   \<and> declared_fields bit_field_config_default [Pad 0, Field ''a'' 3 [], Pad 4]
        = [(''a'', \<lparr>NBits = 3, NOffset = 0, TDefaultConfig = bit_field_config_default\<rparr>)]
   \<and> is_complete 8 \<lparr>count = [0, 3, 7],
            field_types = [(''a'', \<lparr>NBits = 3, NOffset = 0,
                                    TDefaultConfig = bit_field_config_default\<rparr>)]\<rparr>
        = Inr False"
proof -
  let ?s1 = "\<lparr>count = [5, 7, 29, 32],
            field_types = [(''field1'', field1), (''field2'', field2), (''field3'', field3)]\<rparr>"
  let ?ds2 = "[Pad 0, Field ''a'' 3 [], Pad 4]"
  let ?s2 = "\<lparr>count = [0, 3, 7],
            field_types = [(''a'', \<lparr>NBits = 3, NOffset = 0,
                                    TDefaultConfig = bit_field_config_default\<rparr>)]\<rparr>"
  have a1: "declare_members 32 bit_field_config_default my_bit_field bit_field_builder = Inr ?s1"
    by (simp add: my_bit_field_def field1_def field2_def field3_def builder_eval
          bit_field_config_default_def)
  have b1: "sum_list (map num_bits_of my_bit_field) \<le> 32"
    by (simp add: my_bit_field_def)
  have a2: "declare_members 8 bit_field_config_default ?ds2 bit_field_builder = Inr ?s2"
    by (simp add: builder_eval)
  have b2: "sum_list (map num_bits_of ?ds2) \<le> 8"
    by simp
  have e1: "sum_list (map num_bits_of my_bit_field) = 32"
    by (simp add: my_bit_field_def)
  have c1: "declared_fields bit_field_config_default my_bit_field
              = [(''field1'', field1), (''field2'', field2), (''field3'', field3)]"
    using layout_offsets_and_completeness [OF a1 b1] by simp
  have "is_complete 32 ?s1 = Inr (sum_list (map num_bits_of my_bit_field) = 32)"
    using layout_offsets_and_completeness [OF a1 b1] by (rule conjunct2)
  then have d1: "is_complete 32 ?s1 = Inr True"
    by (simp only: e1 simp_thms)
  have o1: "NOffset field1 = 0" and o2: "NOffset field2 = 5" and o3: "NOffset field3 = 29"
    by (simp_all add: field1_def field2_def field3_def)
  have c2: "declared_fields bit_field_config_default ?ds2
              = [(''a'', \<lparr>NBits = 3, NOffset = 0, TDefaultConfig = bit_field_config_default\<rparr>)]"
    using layout_offsets_and_completeness [OF a2 b2] by simp
  have "is_complete 8 ?s2 = Inr (sum_list (map num_bits_of ?ds2) = 8)"
    using layout_offsets_and_completeness [OF a2 b2] by (rule conjunct2)
  moreover have "sum_list (map num_bits_of ?ds2) \<noteq> 8"
    by simp
  ultimately have d2: "is_complete 8 ?s2 = Inr False"
    by (simp only: simp_thms)
  show ?thesis
    by (intro conjI a1 b1 c1 o1 o2 o3 d1 a2 b2 c2 d2)
qed

section \<open>Resolution of the offset\<close>

lemma sentinels_distinct: "no_shift \<noteq> no_override"
  by (simp add: no_shift_def no_override_def)

text \<open>
  Claim C6. The effective offset of a call is resolved through three layers, the call-site
  configuration first, then the field default, then the global default 0; at either of the
  first two layers \<^verbatim>\<open>no_shift\<close> resolves to the field's own storage offset and
  \<^verbatim>\<open>no_override\<close> defers to the next layer. The two sentinels are different values and
  are read as different requests, so a call can ask for no shift whatever the defaults
  are; \<^verbatim>\<open>make_config\<close> merges a field's configuration with the class default in the same
  way and passes \<^verbatim>\<open>no_shift\<close> on unchanged.
\<close>

theorem effective_offset_three_layers:
  "effective_offset f TConfig =
     merged_offset (NOffset f) (offset_request_of (offset TConfig))
       (offset_request_of (offset (TDefaultConfig f)))
   \<and> no_shift \<noteq> no_override
   \<and> offset_request_of no_override = Unspecified
   \<and> offset_request_of no_shift = Keep_source_position
   \<and> effective_offset f (TConfig\<lparr>offset := no_shift\<rparr>) = NOffset f
   \<and> effective_offset (f\<lparr>TDefaultConfig := d\<lparr>offset := no_shift\<rparr>\<rparr>) (TConfig\<lparr>offset := no_override\<rparr>)
        = NOffset f
   \<and> effective_offset (f\<lparr>TDefaultConfig := d\<lparr>offset := no_override\<rparr>\<rparr>) (TConfig\<lparr>offset := no_override\<rparr>)
        = 0
   \<and> offset_request_of (offset (make_config class_default [given])) =
        (case offset_request_of (offset given) of
           Unspecified \<Rightarrow> offset_request_of (offset class_default)
         | Keep_source_position \<Rightarrow> Keep_source_position
         | Position p \<Rightarrow> Position p)"
  by (simp add: effective_offset_def merged_offset_def offset_request_of_def make_config_def
      sentinels_distinct)

section \<open>Assignment\<close>

lemma in_range_iff:
  "val AND NOT m = 0 \<longleftrightarrow> (\<forall>k. bit val k \<longrightarrow> bit m k)"
  for val m :: "'a::len word"
  by (auto simp add: bit_eq_iff bit_simps dest: bit_imp_le_length)

lemma in_range_and:
  "val AND NOT (span_mask e n) = 0 \<Longrightarrow> val AND (span_mask e n OR x) = val"
  for val :: "'a::len word"
  by (auto simp add: in_range_iff bit_eq_iff bit_simps)

lemma in_range_not:
  "val AND NOT (span_mask e n) = 0 \<Longrightarrow> val AND NOT (span_mask e n OR x) = 0"
  for val :: "'a::len word"
  by (auto simp add: in_range_iff)  (auto simp add: bit_eq_iff bit_simps)

lemma extract_bits_skip_mask:
  fixes val :: "'v::len word"
  assumes "val AND NOT (span_mask so n) = 0"
  shows "(extract_bits n so dd True val :: compile_error + 'b::len word) = extract_bits n so dd False val"
  using assms
  by (simp add: extract_bits_def bit_mask_eq in_range_and Let_def)

lemma set_helper_skip_mask:
  fixes val :: "'v::len word" and into :: "'s::len word"
  assumes "val AND NOT (span_mask (effective_offset f cfg) (NBits f)) = 0"
  shows "set_helper f cfg True into val = set_helper f cfg False into val"
  using assms by (simp add: set_helper_def extract_bits_skip_mask cong: sum.case_cong)

lemma effective_offset_strategy [simp]:
  "effective_offset f (cfg\<lparr>strategy := st\<rparr>) = effective_offset f cfg"
  by (simp add: effective_offset_def)

lemma set_helper_strategy [simp]:
  "set_helper f (cfg\<lparr>strategy := st\<rparr>) skip into val = set_helper f cfg skip into val"
  by (simp add: set_helper_def cong: sum.case_cong)

lemma set_helper_accepted:
  fixes val :: "'v::len word" and into :: "'s::len word"
  assumes "set_helper f cfg skip into val = Inr into'"
  shows "\<exists>m. (bit_mask (effective_offset f cfg) (NBits f) :: compile_error + 'v word) = Inr m"
  using assms
  by (auto simp add: set_helper_def extract_bits_def split: sum.splits if_splits)

text \<open>
  When the compiler accepts a \<^verbatim>\<open>set\<close> under the \<^verbatim>\<open>mask\<close> strategy: both spans fit their
  types and neither reaches beyond bit 31.
\<close>

lemma set_impl_mask_accepted_iff:
  fixes into :: "'s::len word" and val :: "'v::len word"
  shows "(\<exists>into'. set_impl f (cfg\<lparr>strategy := mask_strategy\<rparr>) into val = Inr (into', returns_void))
     \<longleftrightarrow> 0 < NBits f
         \<and> NOffset f + NBits f \<le> LENGTH('s) \<and> NOffset f + NBits f \<le> 32
         \<and> effective_offset f cfg + NBits f \<le> LENGTH('v) \<and> effective_offset f cfg + NBits f \<le> 32"
  by (auto simp add: set_impl_def effective_strategy_def set_helper_def extract_bits_def
        bit_mask_eq Let_def split: sum.splits if_splits)

text \<open>
  Claim C9. All four assignment strategies agree on in-range values: when the value has no
  bit set outside the field's width at the merged offset, and the call is one the compiler
  accepts (\<open>set_impl_mask_accepted_iff\<close>), \<^verbatim>\<open>set\<close> writes the same storage word under
  \<^verbatim>\<open>unchecked\<close>, \<^verbatim>\<open>mask\<close>, \<^verbatim>\<open>return_bool\<close> and \<^verbatim>\<open>exception\<close>, the
  \<^verbatim>\<open>return_bool\<close> call returns true and the \<^verbatim>\<open>exception\<close> call does not throw.
\<close>

theorem strategies_agree_in_range:
  fixes val :: "'v::len word" and into :: "'s::len word"
  assumes in_range: "val AND NOT (span_mask (effective_offset f cfg) (NBits f)) = 0"
    and accepted: "set_impl f (cfg\<lparr>strategy := mask_strategy\<rparr>) into val = Inr (into', r)"
  shows "set_impl f (cfg\<lparr>strategy := unchecked_strategy\<rparr>) into val = Inr (into', returns_void)
       \<and> set_impl f (cfg\<lparr>strategy := mask_strategy\<rparr>) into val = Inr (into', returns_void)
       \<and> set_impl f (cfg\<lparr>strategy := return_bool\<rparr>) into val = Inr (into', returns True)
       \<and> set_impl f (cfg\<lparr>strategy := exception\<rparr>) into val = Inr (into', returns_void)"
proof -
  have h: "set_helper f cfg False into val = Inr into'" and r: "r = returns_void"
    using accepted by (auto simp add: set_impl_def effective_strategy_def split: sum.splits)
  have hs: "set_helper f cfg True into val = Inr into'"
    using h in_range by (simp add: set_helper_skip_mask)
  obtain m :: "'v word" where m: "bit_mask (effective_offset f cfg) (NBits f) = Inr m"
    using set_helper_accepted [OF h] by blast
  have "m = span_mask (effective_offset f cfg) (NBits f) OR sign_fill (effective_offset f cfg) (NBits f)"
    using m by (simp add: bit_mask_eq split: if_splits)
  then have chk: "val AND NOT m = 0"
    using in_range_not [OF in_range] by simp
  show ?thesis
    using h hs m chk by (simp add: set_impl_def effective_strategy_def)
qed

theorem strategies_agree_in_range_witness:
  "(5 :: 8 word) AND NOT (span_mask (effective_offset \<lparr>NBits = 3, NOffset = 2, TDefaultConfig = bit_field_config_default\<rparr> bit_field_config_default) 3) = 0
   \<and> set_impl \<lparr>NBits = 3, NOffset = 2, TDefaultConfig = bit_field_config_default\<rparr>
         (bit_field_config_default\<lparr>strategy := mask_strategy\<rparr>) (0 :: 8 word) (5 :: 8 word)
       = Inr (20, returns_void)
   \<and> set_impl \<lparr>NBits = 3, NOffset = 2, TDefaultConfig = bit_field_config_default\<rparr>
         (bit_field_config_default\<lparr>strategy := unchecked_strategy\<rparr>) (0 :: 8 word) (5 :: 8 word)
       = Inr (20, returns_void)
   \<and> set_impl \<lparr>NBits = 3, NOffset = 2, TDefaultConfig = bit_field_config_default\<rparr>
         (bit_field_config_default\<lparr>strategy := return_bool\<rparr>) (0 :: 8 word) (5 :: 8 word)
       = Inr (20, returns True)
   \<and> set_impl \<lparr>NBits = 3, NOffset = 2, TDefaultConfig = bit_field_config_default\<rparr>
         (bit_field_config_default\<lparr>strategy := exception\<rparr>) (0 :: 8 word) (5 :: 8 word)
       = Inr (20, returns_void)"
proof -
  let ?f = "\<lparr>NBits = 3, NOffset = 2, TDefaultConfig = bit_field_config_default\<rparr>"
  have h1: "(5 :: 8 word) AND NOT (span_mask (effective_offset ?f bit_field_config_default) (NBits ?f)) = 0"
    by (simp add: config_defs mask_eval)
  have h2: "set_impl ?f (bit_field_config_default\<lparr>strategy := mask_strategy\<rparr>) (0 :: 8 word) (5 :: 8 word)
              = Inr (20, returns_void)"
    by (simp add: set_impl_def set_helper_def extract_bits_def config_defs mask_eval)
  from strategies_agree_in_range [OF h1 h2] h1 show ?thesis by simp
qed

section \<open>Assignment and extraction where the masks are exact\<close>

text \<open>
  The mask that \<open>bit_mask\<close> computes for a span is the mask of the specification when the
  type has at most 32 bits or the span ends below bit 31. The following lemmas are stated
  under that condition, for the storage type and for the value type.
\<close>

lemma set_helper_exact:
  fixes into :: "'s::len word" and val :: "'v::len word"
  assumes wf: "0 < NBits f" "NOffset f + NBits f \<le> LENGTH('s)"
      "effective_offset f cfg + NBits f \<le> LENGTH('v)"
    and ex: "LENGTH('s) \<le> 32 \<or> NOffset f + NBits f < 32"
      "LENGTH('v) \<le> 32 \<or> effective_offset f cfg + NBits f < 32"
  shows "\<exists>into'. set_helper f cfg False into val = Inr into' \<and>
           (\<forall>k. bit into' k \<longleftrightarrow>
              (if NOffset f \<le> k \<and> k < NOffset f + NBits f
               then bit val (effective_offset f cfg + (k - NOffset f))
               else bit into k))"
proof -
  have m: "(bit_mask (NOffset f) (NBits f) :: compile_error + 's word)
             = Inr (span_mask (NOffset f) (NBits f))"
    using wf ex by (simp add: bit_mask_exact)
  obtain moved :: "'s word"
    where mv: "extract_bits (NBits f) (effective_offset f cfg) (NOffset f) False val = Inr moved"
      and bm: "\<And>k. bit moved k \<longleftrightarrow> NOffset f \<le> k \<and> k < NOffset f + NBits f
                 \<and> bit val (effective_offset f cfg + (k - NOffset f))"
    using extract_bits_exact [OF wf(1) wf(3) wf(2) ex(2), of val] by blast
  have "set_helper f cfg False into val = Inr ((into AND NOT (span_mask (NOffset f) (NBits f))) OR moved)"
    by (simp add: set_helper_def m mv)
  moreover have "bit ((into AND NOT (span_mask (NOffset f) (NBits f))) OR moved) k \<longleftrightarrow>
              (if NOffset f \<le> k \<and> k < NOffset f + NBits f
               then bit val (effective_offset f cfg + (k - NOffset f))
               else bit into k)" for k
    using wf by (auto simp add: bit_simps bit_span_mask bm dest: bit_imp_le_length)
  ultimately show ?thesis by blast
qed

lemma mask_set_frame:
  fixes into :: "'s::len word" and val :: "'v::len word"
  assumes wf: "0 < NBits f" "NOffset f + NBits f \<le> LENGTH('s)"
      "effective_offset f cfg + NBits f \<le> LENGTH('v)"
    and ex: "LENGTH('s) \<le> 32 \<or> NOffset f + NBits f < 32"
      "LENGTH('v) \<le> 32 \<or> effective_offset f cfg + NBits f < 32"
  shows "\<exists>into'. set_impl f (cfg\<lparr>strategy := mask_strategy\<rparr>) into val = Inr (into', returns_void) \<and>
           (\<forall>k. \<not> (NOffset f \<le> k \<and> k < NOffset f + NBits f) \<longrightarrow> bit into' k = bit into k)"
proof -
  from set_helper_exact [OF wf ex, of into val]
  obtain into' where h: "set_helper f cfg False into val = Inr into'"
    and b: "\<And>k. bit into' k \<longleftrightarrow>
              (if NOffset f \<le> k \<and> k < NOffset f + NBits f
               then bit val (effective_offset f cfg + (k - NOffset f))
               else bit into k)"
    by blast
  have "set_impl f (cfg\<lparr>strategy := mask_strategy\<rparr>) into val = Inr (into', returns_void)"
    using h by (simp add: set_impl_def effective_strategy_def)
  then show ?thesis using b by auto
qed

lemma mask_round_trip:
  fixes into :: "'s::len word" and val :: "'v::len word"
  assumes wf: "0 < NBits f" "NOffset f + NBits f \<le> LENGTH('s)"
      "effective_offset f cfg + NBits f \<le> LENGTH('v)"
    and ex: "LENGTH('s) \<le> 32 \<or> NOffset f + NBits f < 32"
      "LENGTH('v) \<le> 32 \<or> effective_offset f cfg + NBits f < 32"
    and get_cfg: "strategy cfg = no_override_strategy"
  shows "\<exists>into'. set_impl f (cfg\<lparr>strategy := mask_strategy\<rparr>) into val = Inr (into', returns_void) \<and>
           (get f cfg into' :: compile_error + 'v word)
             = Inr (val AND span_mask (effective_offset f cfg) (NBits f))"
proof -
  from set_helper_exact [OF wf ex, of into val]
  obtain into' where h: "set_helper f cfg False into val = Inr into'"
    and b: "\<And>k. bit into' k \<longleftrightarrow>
              (if NOffset f \<le> k \<and> k < NOffset f + NBits f
               then bit val (effective_offset f cfg + (k - NOffset f))
               else bit into k)"
    by blast
  have s: "set_impl f (cfg\<lparr>strategy := mask_strategy\<rparr>) into val = Inr (into', returns_void)"
    using h by (simp add: set_impl_def effective_strategy_def)
  obtain d :: "'v word"
    where g: "extract_bits (NBits f) (NOffset f) (effective_offset f cfg) False into' = Inr d"
      and bd: "\<And>k. bit d k \<longleftrightarrow> effective_offset f cfg \<le> k \<and> k < effective_offset f cfg + NBits f
                 \<and> bit into' (NOffset f + (k - effective_offset f cfg))"
    using extract_bits_exact [OF wf(1) wf(2) wf(3) ex(1), of into'] by blast
  have "d = val AND span_mask (effective_offset f cfg) (NBits f)"
    using wf by (intro bit_eqI) (auto simp add: bd b bit_simps bit_span_mask)
  then show ?thesis
    using s g get_cfg by (simp add: get_def)
qed

lemma checked_set_exact:
  fixes into :: "'s::len word" and val :: "'v::len word"
  assumes wf: "0 < NBits f" "NOffset f + NBits f \<le> LENGTH('s)"
      "effective_offset f cfg + NBits f \<le> LENGTH('v)"
    and ex: "LENGTH('s) \<le> 32 \<or> NOffset f + NBits f < 32"
      "LENGTH('v) \<le> 32 \<or> effective_offset f cfg + NBits f < 32"
  shows "\<exists>into'. set_impl f (cfg\<lparr>strategy := mask_strategy\<rparr>) into val = Inr (into', returns_void) \<and>
           set_impl f (cfg\<lparr>strategy := return_bool\<rparr>) into val =
             (if val AND NOT (span_mask (effective_offset f cfg) (NBits f)) = 0
              then Inr (into', returns True) else Inr (into, returns False)) \<and>
           set_impl f (cfg\<lparr>strategy := exception\<rparr>) into val =
             (if val AND NOT (span_mask (effective_offset f cfg) (NBits f)) = 0
              then Inr (into', returns_void) else Inr (into, throws_bit_field_error))"
proof -
  from set_helper_exact [OF wf ex, of into val]
  obtain into' where h: "set_helper f cfg False into val = Inr into'"
    by blast
  have s: "set_impl f (cfg\<lparr>strategy := mask_strategy\<rparr>) into val = Inr (into', returns_void)"
    using h by (simp add: set_impl_def effective_strategy_def)
  have m: "(bit_mask (effective_offset f cfg) (NBits f) :: compile_error + 'v word)
             = Inr (span_mask (effective_offset f cfg) (NBits f))"
    using wf ex by (simp add: bit_mask_exact)
  have ms: "(bit_mask (NOffset f) (NBits f) :: compile_error + 's word)
             = Inr (span_mask (NOffset f) (NBits f))"
    using wf ex by (simp add: bit_mask_exact)
  have "\<exists>w :: 's word. set_helper f cfg True into val = Inr w"
    using wf by (simp add: set_helper_def ms extract_bits_def m Let_def)
  then obtain w :: "'s word" where hs: "set_helper f cfg True into val = Inr w"
    by blast
  have "w = into'" if "val AND NOT (span_mask (effective_offset f cfg) (NBits f)) = 0"
    using set_helper_skip_mask [OF that, of into] h hs by simp
  then show ?thesis
    using s hs m by (auto simp add: set_impl_def effective_strategy_def)
qed

lemma get_span_only:
  fixes a b :: "'s::len word"
  assumes wf: "0 < NBits f" "NOffset f + NBits f \<le> LENGTH('s)"
      "effective_offset f cfg + NBits f \<le> LENGTH('r::len)"
    and ex: "LENGTH('s) \<le> 32 \<or> NOffset f + NBits f < 32"
    and agree: "a AND span_mask (NOffset f) (NBits f) = b AND span_mask (NOffset f) (NBits f)"
  shows "(get f cfg a :: compile_error + 'r word) = get f cfg b"
proof -
  have m: "(bit_mask (NOffset f) (NBits f) :: compile_error + 's word)
             = Inr (span_mask (NOffset f) (NBits f))"
    using wf ex by (simp add: bit_mask_exact)
  show ?thesis
    using agree by (simp add: get_def extract_bits_def m Let_def)
qed

section \<open>Assignment and extraction on 64-bit words\<close>

text \<open>
  Claim C3. Under \<^verbatim>\<open>return_bool\<close> and \<^verbatim>\<open>exception\<close>, \<^verbatim>\<open>set\<close> succeeds if and only if
  every bit of the value outside the field's width at the merged offset is zero, and
  otherwise leaves the storage word unchanged. Where the masks are exact this is
  \<open>checked_set_exact\<close>. With a \<^verbatim>\<open>std::uint64_t\<close> value and the
  32-bit field \<open>low_half\<close> the code departs from it: the value has bit 32 set, outside the
  field's width, and yet both checked strategies accept it and write it.
\<close>

theorem checked_set_uint64_accepts_excess:
  "set_impl low_half (bit_field_config_default\<lparr>strategy := return_bool\<rparr>)
       (0 :: 64 word) (0x100000000 :: 64 word) = Inr (0x100000000, returns True)
   \<and> set_impl low_half (bit_field_config_default\<lparr>strategy := exception\<rparr>)
       (0 :: 64 word) (0x100000000 :: 64 word) = Inr (0x100000000, returns_void)
   \<and> (0x100000000 :: 64 word) AND NOT (span_mask (effective_offset low_half bit_field_config_default) (NBits low_half)) = 0x100000000"
  by (simp add: low_half_def set_impl_def set_helper_def extract_bits_def config_defs mask_eval)

text \<open>
  Claim C4. Round trip under the \<^verbatim>\<open>mask\<close> strategy: \<^verbatim>\<open>set\<close> followed by \<^verbatim>\<open>get\<close> returns
  the value masked down to the field's width. Where the masks are exact this is
  \<open>mask_round_trip\<close>. With \<^verbatim>\<open>std::uint64_t\<close> storage and value
  and the 32-bit field \<open>low_half\<close> the code departs from it: the value masked to 32 bits is
  zero, and \<^verbatim>\<open>get\<close> after \<^verbatim>\<open>set\<close> returns the unmasked value.
\<close>

theorem round_trip_uint64_fails:
  "set_impl low_half bit_field_config_default (0 :: 64 word) (0x100000000 :: 64 word)
     = Inr (0x100000000, returns_void)
   \<and> (get low_half bit_field_config_default (0x100000000 :: 64 word) :: compile_error + 64 word)
     = Inr 0x100000000
   \<and> (0x100000000 :: 64 word) AND span_mask (effective_offset low_half bit_field_config_default) (NBits low_half) = 0"
  by (simp add: low_half_def set_impl_def set_helper_def get_def extract_bits_def config_defs mask_eval)

text \<open>
  Claim C7. A \<^verbatim>\<open>set\<close> under the \<^verbatim>\<open>mask\<close> strategy changes no bit of the storage word
  outside the field's span. Where the masks are exact this is \<open>mask_set_frame\<close>. With
  \<^verbatim>\<open>std::uint64_t\<close> storage and the 32-bit field
  \<open>low_half\<close> the code departs from it: bit 32 of the storage word lies outside the span
  \<open>[0, 32)\<close>, is set before the call and is clear after it.
\<close>

theorem mask_set_uint64_clobbers:
  "set_impl low_half bit_field_config_default (0x100000000 :: 64 word) (0 :: 32 word)
     = Inr (0, returns_void)
   \<and> bit (0x100000000 :: 64 word) 32
   \<and> \<not> (NOffset low_half \<le> 32 \<and> 32 < NOffset low_half + NBits low_half)"
  by (simp add: low_half_def set_impl_def set_helper_def extract_bits_def config_defs mask_eval)

text \<open>
  Claim C10. \<^verbatim>\<open>get\<close> depends only on the field's span: two inputs that agree on the
  bits of the span give the same result. Where the source mask is exact this is
  \<open>get_span_only\<close>. With \<^verbatim>\<open>std::uint64_t\<close> inputs and the 32-bit
  field \<open>low_half\<close> the code departs from it: the two inputs agree on the span \<open>[0, 32)\<close>
  and differ in bit 32 only, and the results differ.
\<close>

theorem get_uint64_depends_on_outside:
  "(get low_half bit_field_config_default (0 :: 64 word) :: compile_error + 64 word) = Inr 0
   \<and> (get low_half bit_field_config_default (0x100000000 :: 64 word) :: compile_error + 64 word)
        = Inr 0x100000000
   \<and> (0 :: 64 word) AND span_mask (NOffset low_half) (NBits low_half)
        = 0x100000000 AND span_mask (NOffset low_half) (NBits low_half)"
  by (simp add: low_half_def get_def extract_bits_def config_defs mask_eval)

text \<open>
  Claim C8. The worked 32-bit scenario: the layout of the README puts \<open>field1\<close> at bits
  \<open>[0, 5)\<close>, \<open>field2\<close> at bits \<open>[5, 7)\<close>, read as a byte and not shifted, and \<open>field3\<close> at
  bits \<open>[29, 32)\<close> after 22 bits of padding, and it is complete. The storage word
  \<open>11100000 00000000 00000000 01111111\<close> yields 31, \<open>01100000\<close> and \<open>111\<close>, and setting
  these three values in turn on a zero storage word gives that word back.
\<close>

theorem worked_scenario_32:
  "declare_members 32 bit_field_config_default my_bit_field bit_field_builder
     = Inr \<lparr>count = [5, 7, 29, 32],
            field_types = [(''field1'', field1), (''field2'', field2), (''field3'', field3)]\<rparr>
   \<and> is_complete 32 \<lparr>count = [5, 7, 29, 32],
            field_types = [(''field1'', field1), (''field2'', field2), (''field3'', field3)]\<rparr>
         = Inr True
   \<and> (get field1 bit_field_config_default (0xE000007F :: 32 word) :: compile_error + 32 word) = Inr 31
   \<and> (get field2 bit_field_config_default (0xE000007F :: 32 word) :: compile_error + 8 word) = Inr 0x60
   \<and> (get field3 bit_field_config_default (0xE000007F :: 32 word) :: compile_error + 32 word) = Inr 7
   \<and> set_impl field1 bit_field_config_default (0 :: 32 word) (31 :: 32 word) = Inr (0x1F, returns_void)
   \<and> set_impl field2 bit_field_config_default (0x1F :: 32 word) (0x60 :: 8 word) = Inr (0x7F, returns_void)
   \<and> set_impl field3 bit_field_config_default (0x7F :: 32 word) (7 :: 32 word)
         = Inr (0xE000007F, returns_void)"
  by (simp add: my_bit_field_def field1_def field2_def field3_def builder_eval
        set_impl_def set_helper_def get_def extract_bits_def config_defs mask_eval)


end
